theory Spec2Isabelle
  imports Main
begin

section \<open>The reaction-driven paginator session (ext/paginator.py)\<close>

text \<open>
  A shallow embedding of the class \<^verbatim>\<open>PaginatorSession\<close>. The session object is a
  record; everything outside it (the objects on the Python heap that the session only
  refers to, the chat transport and the event source) is the record \<open>world\<close>, which the
  methods take and return. A method returns \<open>Inr\<close> of its value, or \<open>Inl\<close> of the
  exception that leaves it, together with the state as it is at that moment: Python
  objects keep the mutations made before a raise.
\<close>

subsection \<open>Python values\<close>

text \<open>
  A Python \<^verbatim>\<open>str\<close> is a sequence of Unicode code points. \<open>ascii\<close> turns an ASCII
  literal of the source into one.
\<close>

type_synonym pystr = "nat list"

definition ascii :: "string \<Rightarrow> pystr" where
  "ascii s = map of_char s"

text \<open>\<^verbatim>\<open>a in b\<close> on two strings: \<open>a\<close> occurs in \<open>b\<close> as a contiguous piece.\<close>

fun str_in :: "pystr \<Rightarrow> pystr \<Rightarrow> bool" where
  "str_in a [] = (a = [])"
| "str_in a (c # cs) = (take (length a) (c # cs) = a \<or> str_in a cs)"

text \<open>\<^verbatim>\<open>str(n)\<close>, as the f-strings of the source format an integer.\<close>

fun str_nat :: "nat \<Rightarrow> pystr" where
  "str_nat n = (if n < 10 then [48 + n] else str_nat (n div 10) @ [48 + n mod 10])"

declare str_nat.simps [simp del]

definition str_int :: "int \<Rightarrow> pystr" where
  "str_int i = (if i < 0 then 45 # str_nat (nat (- i)) else str_nat (nat i))"

text \<open>
  \<^verbatim>\<open>str.isdigit\<close> and \<^verbatim>\<open>int\<close> read the Unicode character database, which is not part
  of the repository; it is a parameter of the model, one entry per code point: a decimal
  digit with its value (category Nd, such as \<^verbatim>\<open>'7'\<close>), a digit that is not a decimal
  (such as the superscript two), or no digit at all.
\<close>

datatype digit_class = Decimal nat | Digit | NoDigit

type_synonym ucd = "nat \<Rightarrow> digit_class"

definition isdigit :: "ucd \<Rightarrow> pystr \<Rightarrow> bool" where
  "isdigit u s = (s \<noteq> [] \<and> list_all (\<lambda>c. u c \<noteq> NoDigit) s)"

datatype error = TypeError | ValueError | AttributeError | HTTPException

text \<open>
  \<^verbatim>\<open>int(s)\<close> on a string without sign, blank or underscore, which is every string that
  passes \<open>isdigit\<close>: the decimal value, or ValueError when a character is not a decimal.
\<close>

fun decimal_value :: "ucd \<Rightarrow> pystr \<Rightarrow> nat \<Rightarrow> error + nat" where
  "decimal_value u [] acc = Inr acc"
| "decimal_value u (c # cs) acc =
     (case u c of
        Decimal d \<Rightarrow> decimal_value u cs (10 * acc + d)
      | Digit \<Rightarrow> Inl ValueError
      | NoDigit \<Rightarrow> Inl ValueError)"

definition py_int :: "ucd \<Rightarrow> pystr \<Rightarrow> error + nat" where
  "py_int u s = (if s = [] then Inl ValueError else decimal_value u s 0)"

text \<open>The table on ASCII: the ten digits \<^verbatim>\<open>'0'\<close> to \<^verbatim>\<open>'9'\<close> are code points 48 to 57.\<close>

definition ascii_ucd :: ucd where
  "ascii_ucd c = (if 48 \<le> c \<and> c \<le> 57 then Decimal (c - 48) else NoDigit)"

subsection \<open>Embeds, messages, events\<close>

record embed =
  title :: pystr
  description :: pystr
  color :: nat
  embed_fields :: "(pystr \<times> pystr) list"
  footer :: "pystr option"

text \<open>\<^verbatim>\<open>Embed.set_footer(text=...)\<close> replaces the footer.\<close>

definition set_footer :: "pystr \<Rightarrow> embed \<Rightarrow> embed" where
  "set_footer text e = e\<lparr>footer := Some text\<rparr>"

text \<open>
  Objects are referred to by address. An argument of \<^verbatim>\<open>add_page\<close> is any Python
  object: a reference to an Embed, or something that is not an Embed.
\<close>

type_synonym ref = nat

datatype pyobj = EmbedRef ref | NotEmbed

text \<open>A message, a user and a channel are compared by their ids.\<close>

record ctx =
  author :: nat
  channel :: nat

record message =
  m_id :: nat
  m_author :: nat
  m_channel :: nat
  content :: pystr

record reaction_event =
  r_emoji :: pystr
  r_message :: nat
  r_user :: nat

subsection \<open>The world: heap, transport and event source\<close>

datatype payload = Text pystr | EmbedPayload embed

datatype call =
    Send nat payload
  | Edit nat embed
  | AddReaction nat pystr
  | RemoveReaction nat pystr nat
  | ClearReactions nat
  | Delete nat
  | DeleteMessages nat "nat list"
  | Sleep nat
  | WaitReaction nat
  | WaitMessage nat

text \<open>
  \<open>lists\<close> and \<open>embeds\<close> are the heap: the list objects and the Embed objects, by
  address. \<open>trace\<close> holds every call issued to the transport or the event loop, oldest
  first, whether it succeeded or not; the call that becomes entry \<open>n\<close> of the trace
  raises when \<open>failing n\<close>. \<open>next_id\<close> is the id of the next message the bot sends.
  \<open>reactions_in\<close> has one entry for each wait for a reaction: the reactions that arrive
  while that wait is pending, in order; \<open>messages_in\<close> likewise for the waits for a
  message. A wait that finds no entry left sees nothing arrive.
\<close>

record world =
  lists :: "ref \<Rightarrow> ref list"
  embeds :: "ref \<Rightarrow> embed"
  trace :: "call list"
  failing :: "nat \<Rightarrow> bool"
  next_id :: nat
  reactions_in :: "reaction_event list list"
  messages_in :: "message list list"

definition transport :: "call \<Rightarrow> world \<Rightarrow> (error + unit) \<times> world" where
  "transport c w =
     (if failing w (length (trace w)) then Inl HTTPException else Inr (),
      w\<lparr>trace := trace w @ [c]\<rparr>)"

text \<open>\<^verbatim>\<open>ctx.send(...)\<close> returns the new message.\<close>

definition send :: "ctx \<Rightarrow> payload \<Rightarrow> world \<Rightarrow> (error + nat) \<times> world" where
  "send c p w =
     (if failing w (length (trace w))
      then (Inl HTTPException, w\<lparr>trace := trace w @ [Send (channel c) p]\<rparr>)
      else (Inr (next_id w),
            w\<lparr>trace := trace w @ [Send (channel c) p], next_id := Suc (next_id w)\<rparr>))"

text \<open>\<^verbatim>\<open>asyncio.sleep\<close> does not raise.\<close>

definition sleep :: "nat \<Rightarrow> world \<Rightarrow> world" where
  "sleep n w = w\<lparr>trace := trace w @ [Sleep n]\<rparr>"

text \<open>
  \<^verbatim>\<open>bot.wait_for(event, check=..., timeout=...)\<close>: the first event of the window that the
  check accepts; an exception of the check is raised by the wait; \<open>None\<close> stands for
  \<^verbatim>\<open>asyncio.TimeoutError\<close>, which both callers catch at once.
\<close>

fun first_accepted :: "('e \<Rightarrow> error + bool) \<Rightarrow> 'e list \<Rightarrow> error + 'e option" where
  "first_accepted check [] = Inr None"
| "first_accepted check (e # es) =
     (case check e of
        Inl x \<Rightarrow> Inl x
      | Inr ok \<Rightarrow> if ok then Inr (Some e) else first_accepted check es)"

subsection \<open>The session\<close>

datatype action =
  FirstPage | PreviousPage | Close | NextPage | LastPage | AskForPage | ShowHelpPage

text \<open>
  \<open>paginating\<close> is the attribute that line 98 of the source creates; it does not exist
  (\<open>None\<close>) before.
\<close>

record session =
  ctx :: ctx
  timeout :: nat
  pages :: ref
  running :: bool
  base :: "nat option"
  current :: int
  reaction_map :: "(pystr \<times> action) list"
  help_color :: nat
  page_num_enabled :: bool
  paginating :: "bool option"

type_synonym st = "session \<times> world"

text \<open>The glyphs of the source, as code points.\<close>

definition glyph_first :: pystr where "glyph_first = [0x23EE]"
definition glyph_previous :: pystr where "glyph_previous = [0x25C0]"
definition glyph_close :: pystr where "glyph_close = [0x23F9]"
definition glyph_next :: pystr where "glyph_next = [0x25B6]"
definition glyph_last :: pystr where "glyph_last = [0x23ED]"
definition glyph_ask :: pystr where "glyph_ask = [0x1F522]"
definition glyph_help :: pystr where "glyph_help = [0x1F914]"

definition controls :: "(pystr \<times> action) list" where
  "controls =
     [(glyph_first, FirstPage),
      (glyph_previous, PreviousPage),
      (glyph_close, Close),
      (glyph_next, NextPage),
      (glyph_last, LastPage),
      (glyph_ask, AskForPage),
      (glyph_help, ShowHelpPage)]"

text \<open>
  The default value \<^verbatim>\<open>pages=[]\<close> is one list object, made when the \<^verbatim>\<open>def\<close> statement
  runs; \<open>default_pages\<close> is its address. An argument left out is \<open>None\<close>.
\<close>

definition default_pages :: ref where
  "default_pages = 0"

definition init :: "ctx \<Rightarrow> nat option \<Rightarrow> ref option \<Rightarrow> bool option \<Rightarrow> nat option \<Rightarrow> session" where
  "init c tmo pgs page_nums hcolor =
     \<lparr>ctx = c,
      timeout = (case tmo of None \<Rightarrow> 60 | Some t \<Rightarrow> t),
      pages = (case pgs of None \<Rightarrow> default_pages | Some r \<Rightarrow> r),
      running = False,
      base = None,
      current = 0,
      reaction_map = controls,
      help_color = (case hcolor of None \<Rightarrow> 0x00FFFF | Some h \<Rightarrow> h),
      page_num_enabled = (case page_nums of None \<Rightarrow> True | Some b \<Rightarrow> b),
      paginating = None\<rparr>"

definition add_page :: "pyobj \<Rightarrow> st \<Rightarrow> (error + unit) \<times> st" where
  "add_page e st =
     (case st of (s, w) \<Rightarrow>
        (case e of
           EmbedRef r \<Rightarrow>
             (Inr (), s, w\<lparr>lists := (lists w)(pages s := lists w (pages s) @ [r])\<rparr>)
         | NotEmbed \<Rightarrow> (Inl TypeError, s, w)))"

text \<open>\<^verbatim>\<open>len(self.pages)\<close>\<close>

definition len_pages :: "session \<Rightarrow> world \<Rightarrow> int" where
  "len_pages s w = int (length (lists w (pages s)))"

definition valid_page :: "session \<Rightarrow> world \<Rightarrow> int \<Rightarrow> bool" where
  "valid_page s w index =
     (if index < 0 \<or> index + 1 > len_pages s w then False else True)"

definition page_fmt :: "int \<Rightarrow> int \<Rightarrow> pystr" where
  "page_fmt i n = ascii ''Page '' @ str_int i @ ascii ''/'' @ str_int n"

text \<open>
  The loop of lines 78 to 81 over the glyphs; \<^verbatim>\<open>self.base\<close> is read at each turn.
\<close>

fun add_reactions :: "session \<Rightarrow> pystr list \<Rightarrow> world \<Rightarrow> (error + unit) \<times> world" where
  "add_reactions s [] w = (Inr (), w)"
| "add_reactions s (reaction # rest) w =
     (if len_pages s w = 2 \<and> str_in reaction (glyph_first @ glyph_last)
      then add_reactions s rest w
      else (case base s of
              None \<Rightarrow> (Inl AttributeError, w)
            | Some b \<Rightarrow>
                (case transport (AddReaction b reaction) w of
                   (Inl x, w') \<Rightarrow> (Inl x, w')
                 | (Inr _, w') \<Rightarrow> add_reactions s rest w')))"

definition show_page :: "int \<Rightarrow> st \<Rightarrow> (error + unit) \<times> st" where
  "show_page index st =
     (case st of (s, w) \<Rightarrow>
        if \<not> valid_page s w index then (Inr (), s, w)
        else
          let s1 = s\<lparr>current := index\<rparr>;
              page = lists w (pages s1) ! nat index;
              w1 = (if page_num_enabled s1
                    then w\<lparr>embeds := (embeds w)
                           (page := set_footer (page_fmt (index + 1) (len_pages s1 w))
                                      (embeds w page))\<rparr>
                    else w)
          in if running s1
             then (case base s1 of
                     None \<Rightarrow> (Inl AttributeError, s1, w1)
                   | Some b \<Rightarrow>
                       (case transport (Edit b (embeds w1 page)) w1 of
                          (r, w2) \<Rightarrow> (r, s1, w2)))
             else
               let s2 = s1\<lparr>running := True\<rparr> in
               (case send (ctx s2) (EmbedPayload (embeds w1 page)) w1 of
                  (Inl x, w2) \<Rightarrow> (Inl x, s2, w2)
                | (Inr m, w2) \<Rightarrow>
                    let s3 = s2\<lparr>base := Some m\<rparr> in
                    (case add_reactions s3 (map fst (reaction_map s3)) w2 of
                       (r, w3) \<Rightarrow> (r, s3, w3))))"

text \<open>
  \<^verbatim>\<open>react_check\<close> reads \<^verbatim>\<open>self.base.id\<close>, which raises while there is no message;
  falling off its end returns \<^verbatim>\<open>None\<close>, which the wait takes as a refusal.
\<close>

definition react_check :: "session \<Rightarrow> reaction_event \<Rightarrow> error + bool" where
  "react_check s r =
     (if r_user r \<noteq> author (ctx s) then Inr False
      else (case base s of
              None \<Rightarrow> Inl AttributeError
            | Some b \<Rightarrow>
                if r_message r \<noteq> b then Inr False
                else if r_emoji r \<in> set (map fst (reaction_map s)) then Inr True
                else Inr False))"

definition previous_page :: "st \<Rightarrow> (error + unit) \<times> st" where
  "previous_page st = show_page (current (fst st) - 1) st"

definition next_page :: "st \<Rightarrow> (error + unit) \<times> st" where
  "next_page st = show_page (current (fst st) + 1) st"

definition first_page :: "st \<Rightarrow> (error + unit) \<times> st" where
  "first_page st = show_page 0 st"

definition last_page :: "st \<Rightarrow> (error + unit) \<times> st" where
  "last_page st = show_page (len_pages (fst st) (snd st) - 1) st"

text \<open>\<^verbatim>\<open>inspect.getdoc\<close> of each bound method: its docstring.\<close>

fun getdoc :: "action \<Rightarrow> pystr" where
  "getdoc FirstPage = ascii ''Go to immediately to the first page''"
| "getdoc PreviousPage = ascii ''Go to the previous page.''"
| "getdoc Close = ascii ''Delete this embed.''"
| "getdoc NextPage = ascii ''Go to the next page''"
| "getdoc LastPage = ascii ''Go to immediately to the last page''"
| "getdoc AskForPage = ascii ''Type in the page number.''"
| "getdoc ShowHelpPage = ascii ''Shows this page.''"

fun help_text :: "(pystr \<times> action) list \<Rightarrow> pystr \<Rightarrow> pystr" where
  "help_text [] help = help"
| "help_text ((reaction, callback) # rest) help =
     help_text rest (help @ reaction @ ascii '' - '' @ getdoc callback @ [10])"

definition show_help_page :: "st \<Rightarrow> (error + unit) \<times> st" where
  "show_help_page st =
     (case st of (s, w) \<Rightarrow>
        let em = \<lparr>title = ascii ''Pagination Session - Help'',
                  description =
                    ascii ''React with each of the following reactions to navigate.'',
                  color = help_color s,
                  embed_fields = [(ascii ''Reactions?'', help_text (reaction_map s) [])],
                  footer = (if page_num_enabled s
                            then Some (page_fmt (current s + 1) (len_pages s w))
                            else None)\<rparr>
        in (case base s of
              None \<Rightarrow> (Inl AttributeError, s, w)
            | Some b \<Rightarrow> (case transport (Edit b em) w of (r, w') \<Rightarrow> (r, s, w'))))"

text \<open>
  \<^verbatim>\<open>close\<close> clears the flag when it is called and returns the coroutine of the deletion
  (or \<^verbatim>\<open>None\<close>); the model is the call followed by the \<^verbatim>\<open>await\<close> of what it returns,
  as \<^verbatim>\<open>run\<close> does.
\<close>

definition close :: "bool \<Rightarrow> st \<Rightarrow> (error + unit) \<times> st" where
  "close delete st =
     (case st of (s, w) \<Rightarrow>
        let s1 = s\<lparr>running := False\<rparr> in
        if delete
        then (case base s1 of
                None \<Rightarrow> (Inl AttributeError, s1, w)
              | Some b \<Rightarrow> (case transport (Delete b) w of (r, w') \<Rightarrow> (r, s1, w')))
        else (Inr (), s1, w))"

definition message_check :: "ucd \<Rightarrow> session \<Rightarrow> message \<Rightarrow> error + bool" where
  "message_check u s m =
     Inr (m_author m = author (ctx s) \<and> channel (ctx s) = m_channel m \<and> isdigit u (content m))"

definition wait_for_message :: "ucd \<Rightarrow> session \<Rightarrow> world \<Rightarrow> (error + message option) \<times> world" where
  "wait_for_message u s w =
     (let w1 = w\<lparr>trace := trace w @ [WaitMessage 30]\<rparr> in
      case messages_in w1 of
        [] \<Rightarrow> (Inr None, w1)
      | window # later \<Rightarrow>
          (first_accepted (message_check u s) window, w1\<lparr>messages_in := later\<rparr>))"

text \<open>
  Lines 182 to 186: the delay, then the batch deletion; \<^verbatim>\<open>except Exception: pass\<close>
  drops the outcome.
\<close>

definition cleanup :: "session \<Rightarrow> nat list \<Rightarrow> world \<Rightarrow> world" where
  "cleanup s to_delete w =
     snd (transport (DeleteMessages (channel (ctx s)) to_delete) (sleep 5 w))"

definition invalid_page_text :: "nat \<Rightarrow> int \<Rightarrow> pystr" where
  "invalid_page_text page n =
     ascii ''Invalid page given. ('' @ str_int (int page) @ ascii ''/'' @ str_int n @ ascii '')''"

definition ask_for_page :: "ucd \<Rightarrow> st \<Rightarrow> (error + unit) \<times> st" where
  "ask_for_page u st =
     (case st of (s, w) \<Rightarrow>
        (case send (ctx s) (Text (ascii ''What page do you want to go to?'')) w of
           (Inl e, w1) \<Rightarrow> (Inl e, s, w1)
         | (Inr x, w1) \<Rightarrow>
             (case wait_for_message u s w1 of
                (Inl e, w2) \<Rightarrow> (Inl e, s, w2)
              | (Inr None, w2) \<Rightarrow>
                  (case send (ctx s) (Text (ascii ''Took too long.'')) w2 of
                     (Inl e, w3) \<Rightarrow> (Inl e, s, w3)
                   | (Inr y, w3) \<Rightarrow> (Inr (), s, cleanup s [x, y] w3))
              | (Inr (Some msg), w2) \<Rightarrow>
                  (case py_int u (content msg) of
                     Inl e \<Rightarrow> (Inl e, s, w2)
                   | Inr page \<Rightarrow>
                       if page \<noteq> 0 \<and> int page \<le> len_pages s w2
                       then (case show_page (int page - 1) (s, w2) of
                               (Inl e, st') \<Rightarrow> (Inl e, st')
                             | (Inr _, s', w3) \<Rightarrow>
                                 (Inr (), s', cleanup s' [x, m_id msg] w3))
                       else (case send (ctx s)
                                    (Text (invalid_page_text page (len_pages s w2))) w2 of
                               (Inl e, w3) \<Rightarrow> (Inl e, s, w3)
                             | (Inr y, w3) \<Rightarrow>
                                 (Inr (), s, cleanup s [x, m_id msg, y] w3))))))"

text \<open>
  \<^verbatim>\<open>await show_page()\<close> at line 112, for the callable that the map holds under each
  glyph: the method is called without argument, so \<^verbatim>\<open>close\<close> deletes.
\<close>

fun invoke :: "ucd \<Rightarrow> action \<Rightarrow> st \<Rightarrow> (error + unit) \<times> st" where
  "invoke u FirstPage st = first_page st"
| "invoke u PreviousPage st = previous_page st"
| "invoke u Close st = close True st"
| "invoke u NextPage st = next_page st"
| "invoke u LastPage st = last_page st"
| "invoke u AskForPage st = ask_for_page u st"
| "invoke u ShowHelpPage st = show_help_page st"

definition wait_for_reaction :: "session \<Rightarrow> world \<Rightarrow> (error + reaction_event option) \<times> world" where
  "wait_for_reaction s w =
     (let w1 = w\<lparr>trace := trace w @ [WaitReaction (timeout s)]\<rparr> in
      case reactions_in w1 of
        [] \<Rightarrow> (Inr None, w1)
      | window # later \<Rightarrow>
          (first_accepted (react_check s) window, w1\<lparr>reactions_in := later\<rparr>))"

text \<open>
  One turn of the loop of \<^verbatim>\<open>run\<close>, lines 95 to 112. The value says whether the loop
  goes on (\<open>True\<close>) or was left by \<^verbatim>\<open>break\<close> (\<open>False\<close>). The two bare \<^verbatim>\<open>except\<close>
  clauses drop every exception of the call they guard, also the AttributeError of a
  missing \<^verbatim>\<open>self.base\<close>.
\<close>

definition run_body :: "ucd \<Rightarrow> st \<Rightarrow> (error + bool) \<times> st" where
  "run_body u st =
     (case st of (s, w) \<Rightarrow>
        (case wait_for_reaction s w of
           (Inl e, w1) \<Rightarrow> (Inl e, s, w1)
         | (Inr None, w1) \<Rightarrow>
             let s1 = s\<lparr>paginating := Some False\<rparr> in
             (case base s1 of
                None \<Rightarrow> (Inr False, s1, w1)
              | Some b \<Rightarrow> (Inr False, s1, snd (transport (ClearReactions b) w1)))
         | (Inr (Some r), w1) \<Rightarrow>
             let w2 = (case base s of
                         None \<Rightarrow> w1
                       | Some b \<Rightarrow>
                           snd (transport (RemoveReaction b (r_emoji r) (r_user r)) w1))
             in (case map_of (reaction_map s) (r_emoji r) of
                   None \<Rightarrow> (Inl TypeError, s, w2)
                 | Some a \<Rightarrow>
                     (case invoke u a (s, w2) of
                        (Inl e, st') \<Rightarrow> (Inl e, st')
                      | (Inr _, st') \<Rightarrow> (Inr True, st')))))"

function run_loop :: "ucd \<Rightarrow> st \<Rightarrow> (error + unit) \<times> st" where
  "run_loop u st =
     (if \<not> running (fst st) then (Inr (), st)
      else (case run_body u st of
              (Inl e, st') \<Rightarrow> (Inl e, st')
            | (Inr again, st') \<Rightarrow> if again then run_loop u st' else (Inr (), st')))"
  by pat_completeness auto

definition run :: "ucd \<Rightarrow> st \<Rightarrow> (error + unit) \<times> st" where
  "run u st =
     (case (if \<not> running (fst st) then show_page 0 st else (Inr (), st)) of
        (Inl e, st') \<Rightarrow> (Inl e, st')
      | (Inr _, st') \<Rightarrow> run_loop u st')"

subsection \<open>Observations\<close>

text \<open>
  What a call puts on the screen, and what the trace shows last: the embed of the latest
  send or edit of an embed.
\<close>

fun shown :: "call \<Rightarrow> embed option" where
  "shown (Send ch (EmbedPayload e)) = Some e"
| "shown (Edit m e) = Some e"
| "shown c = None"

fun displayed :: "call list \<Rightarrow> embed option" where
  "displayed [] = None"
| "displayed (c # cs) = (case displayed cs of Some e \<Rightarrow> Some e | None \<Rightarrow> shown c)"

text \<open>
  The state after a sequence of control actions, each one called and awaited whether
  the one before returned or raised.
\<close>

fun invoke_all :: "ucd \<Rightarrow> action list \<Rightarrow> st \<Rightarrow> st" where
  "invoke_all u [] st = st"
| "invoke_all u (a # as) st = invoke_all u as (snd (invoke u a st))"

text \<open>
  The jump dialog's wait finds no message that passes \<^verbatim>\<open>message_check\<close> before its
  timeout.
\<close>

definition no_reply :: "ucd \<Rightarrow> session \<Rightarrow> world \<Rightarrow> bool" where
  "no_reply u s w =
     (case messages_in w of
        [] \<Rightarrow> True
      | window # later \<Rightarrow> list_all (\<lambda>m. message_check u s m = Inr False) window)"

subsection \<open>Sample objects\<close>

text \<open>
  A context, and a world whose heap holds, at address 1, a list of the given page
  documents; every other list (also the default one at address 0) is empty, no call
  fails and nothing arrives.
\<close>

definition sample_ctx :: ctx where
  "sample_ctx = \<lparr>author = 7, channel = 3\<rparr>"

definition sample_embed :: "ref \<Rightarrow> embed" where
  "sample_embed r =
     \<lparr>title = str_nat r, description = [], color = 0, embed_fields = [], footer = None\<rparr>"

definition sample_world :: "ref list \<Rightarrow> world" where
  "sample_world ps =
     \<lparr>lists = (\<lambda>r. if r = 1 then ps else []),
      embeds = sample_embed,
      trace = [],
      failing = (\<lambda>n. False),
      next_id = 100,
      reactions_in = [],
      messages_in = []\<rparr>"

definition sample_session :: session where
  "sample_session = init sample_ctx None (Some 1) None None"

text \<open>
  The same session once its message (id 50) is on display; a message of user \<open>a\<close> in
  the channel of the context; a world with three pages in which the given messages
  arrive during the first wait for a message.
\<close>

definition sample_running :: session where
  "sample_running = sample_session\<lparr>running := True, base := Some 50\<rparr>"

definition sample_reply :: "nat \<Rightarrow> pystr \<Rightarrow> message" where
  "sample_reply a text = \<lparr>m_id = 900 + a, m_author = a, m_channel = 3, content = text\<rparr>"

definition sample_inbox :: "message list \<Rightarrow> world" where
  "sample_inbox window = (sample_world [10, 11, 12])\<lparr>messages_in := [window]\<rparr>"

section \<open>Properties\<close>

subsection \<open>The loop of run terminates\<close>

lemma add_reactions_reactions_in:
  "reactions_in (snd (add_reactions s gs w)) = reactions_in w"
  by (induction gs arbitrary: w) (auto simp: transport_def split: option.splits)

lemma show_page_reactions_in:
  "reactions_in (snd (snd (show_page i st))) = reactions_in (snd st)"
proof -
  have a: "reactions_in w' = reactions_in w" if "add_reactions s gs w = (r, w')" for s gs w r w'
    using add_reactions_reactions_in [of s gs w] that by simp
  show ?thesis
    by (auto simp: show_page_def Let_def transport_def send_def
        split: option.splits prod.splits sum.splits dest!: a)
qed

lemma close_reactions_in:
  "reactions_in (snd (snd (close d st))) = reactions_in (snd st)"
  by (auto simp: close_def Let_def transport_def split: option.splits prod.splits)

lemma show_help_page_reactions_in:
  "reactions_in (snd (snd (show_help_page st))) = reactions_in (snd st)"
  by (auto simp: show_help_page_def Let_def transport_def split: option.splits prod.splits)

lemma ask_for_page_reactions_in:
  "reactions_in (snd (snd (ask_for_page u st))) = reactions_in (snd st)"
proof -
  have a: "reactions_in w' = reactions_in w" if "show_page i (s, w) = (r, s', w')" for s i w r w' s'
    using show_page_reactions_in [of i "(s, w)"] that by simp
  show ?thesis
    by (auto simp: ask_for_page_def Let_def transport_def send_def cleanup_def sleep_def
        wait_for_message_def
        split: option.splits prod.splits sum.splits list.splits dest!: a)
qed

lemma invoke_reactions_in:
  "reactions_in (snd (snd (invoke u a st))) = reactions_in (snd st)"
  by (cases a)
   (simp_all add: first_page_def previous_page_def next_page_def last_page_def
      show_page_reactions_in close_reactions_in show_help_page_reactions_in
      ask_for_page_reactions_in)

text \<open>Each turn that goes on has used up one wait of the event source.\<close>

lemma run_body_again:
  assumes "run_body u st = (Inr True, st')"
  shows "length (reactions_in (snd st')) < length (reactions_in (snd st))"
proof -
  have a: "reactions_in w' = reactions_in w" if "invoke u a (s, w) = (r, s', w')" for s a w r w' s'
    using invoke_reactions_in [of u a "(s, w)"] that by simp
  show ?thesis
    using assms
    by (auto simp: run_body_def Let_def transport_def wait_for_reaction_def
        split: option.splits prod.splits sum.splits list.splits dest!: a)
qed

termination run_loop
  by (relation "measure (\<lambda>(u, st). length (reactions_in (snd st)))")
     (auto dest: run_body_again [OF sym])

declare run_loop.simps [simp del]

subsection \<open>show_page on an index out of range\<close>

text \<open>
  Claim C6. \<^verbatim>\<open>show_page(i)\<close> with \<open>i < 0\<close> or \<open>i \<ge> len(pages)\<close> returns without any
  effect: the session (cursor, \<^verbatim>\<open>running\<close> and every other attribute) and the world (the
  trace of calls, hence no send and no edit, and the heap) are what they were.
\<close>

theorem show_page_invalid_noop:
  "i < 0 \<or> len_pages s w \<le> i \<Longrightarrow> show_page i (s, w) = (Inr (), s, w)"
  by (auto simp: show_page_def valid_page_def)

theorem show_page_invalid_noop_witness:
  "((3::int) < 0 \<or> len_pages sample_session (sample_world [10, 11, 12]) \<le> 3)
   \<and> show_page 3 (sample_session, sample_world [10, 11, 12])
       = (Inr (), sample_session, sample_world [10, 11, 12])
   \<and> show_page (- 1) (sample_session, sample_world [10, 11, 12])
       = (Inr (), sample_session, sample_world [10, 11, 12])"
proof -
  have h: "(3::int) < 0 \<or> len_pages sample_session (sample_world [10, 11, 12]) \<le> 3"
    by (simp add: len_pages_def sample_session_def sample_world_def init_def)
  have h': "(- 1::int) < 0 \<or> len_pages sample_session (sample_world [10, 11, 12]) \<le> - 1"
    by simp
  show ?thesis
    using h show_page_invalid_noop [OF h] show_page_invalid_noop [OF h'] by simp
qed

subsection \<open>close\<close>



subsection \<open>add_page\<close>

text \<open>
  Claim C10. \<^verbatim>\<open>add_page(doc)\<close> appends \<open>doc\<close> to the session's page list when it is an
  Embed and changes nothing else; for any other object it raises TypeError and leaves
  the session and the world, hence the page list, as they were. No other exception
  leaves \<^verbatim>\<open>add_page\<close>, and none leaves it for an Embed.
\<close>

theorem add_page_effect:
  "add_page (EmbedRef r) (s, w)
     = (Inr (), s, w\<lparr>lists := (lists w)(pages s := lists w (pages s) @ [r])\<rparr>)
   \<and> lists (snd (snd (add_page (EmbedRef r) (s, w)))) (pages s) = lists w (pages s) @ [r]
   \<and> add_page NotEmbed (s, w) = (Inl TypeError, s, w)
   \<and> fst (add_page e (s, w)) = (case e of EmbedRef x \<Rightarrow> Inr () | NotEmbed \<Rightarrow> Inl TypeError)"
  by (simp add: add_page_def split: pyobj.splits)

subsection \<open>The default page list\<close>

text \<open>
  Two sessions built without a page list hold the same list object, whatever their other
  arguments are.
\<close>

lemma init_default_pages_same:
  "pages (init c t None n h) = pages (init c' t' None n' h')"
  by (simp add: init_def)

text \<open>
  Claim C3 asks that a session built without a page list gets a list of its own, so that
  \<^verbatim>\<open>add_page\<close> on one such session does not show in another. The code does otherwise:
  in a world where the default list is still empty, a session built for another context
  sees no page; after \<^verbatim>\<open>add_page\<close> on a first session built without a page list, the
  pages of the other one hold the Embed added to the first.
\<close>

theorem default_pages_shared:
  "lists (sample_world []) (pages (init \<lparr>author = 8, channel = 4\<rparr> None None None None)) = []
   \<and> (case add_page (EmbedRef 10) (init sample_ctx None None None None, sample_world []) of
        (r, s', w') \<Rightarrow>
          r = Inr ()
          \<and> lists w' (pages (init \<lparr>author = 8, channel = 4\<rparr> None None None None)) = [10])"
  by (simp add: add_page_def init_def sample_world_def)

subsection \<open>The end of run by timeout\<close>

lemma run_loop_break:
  "running s \<Longrightarrow> run_body u (s, w) = (Inr False, st') \<Longrightarrow> run_loop u (s, w) = (Inr (), st')"
  by (subst run_loop.simps) simp

text \<open>
  When the wait of a running session with a displayed message times out, the loop is
  left at once: one wait, one attempt to clear the reactions whose outcome is dropped,
  no further turn. The session is as before but for the new attribute; \<^verbatim>\<open>running\<close>
  is still true.
\<close>

lemma run_loop_timeout:
  assumes "running s" and "base s = Some b" and "fst (wait_for_reaction s w) = Inr None"
  shows "run_loop u (s, w)
           = (Inr (), s\<lparr>paginating := Some False\<rparr>,
              (snd (wait_for_reaction s w))
                \<lparr>trace := trace w @ [WaitReaction (timeout s), ClearReactions b]\<rparr>)"
proof -
  obtain w1 where w1: "wait_for_reaction s w = (Inr None, w1)"
    using assms(3) by (cases "wait_for_reaction s w") auto
  have t: "trace w1 = trace w @ [WaitReaction (timeout s)]"
    using w1 by (auto simp: wait_for_reaction_def Let_def split: list.splits)
  have "run_body u (s, w)
          = (Inr False, s\<lparr>paginating := Some False\<rparr>,
             w1\<lparr>trace := trace w @ [WaitReaction (timeout s), ClearReactions b]\<rparr>)"
    using assms(2) w1 t by (simp add: run_body_def transport_def)
  from run_loop_break [OF assms(1) this] show ?thesis
    by (simp add: w1)
qed

text \<open>
  Claim C1 asks that \<^verbatim>\<open>running\<close> be false once the loop of \<^verbatim>\<open>run\<close> has ended by
  timeout. The code does otherwise. A session over one page is run while no reaction
  ever arrives, and the call that clears the reactions (entry 9 of the trace) fails:
  \<^verbatim>\<open>run\<close> returns normally after one wait and one attempt to clear the reactions, the
  attribute \<^verbatim>\<open>paginating\<close> has been set to false, and \<^verbatim>\<open>running\<close> is still true.
\<close>

theorem run_timeout_keeps_running:
  "(case run ascii_ucd (sample_session, sample_world [10]\<lparr>failing := (\<lambda>n. n = 9)\<rparr>) of
      (r, s', w') \<Rightarrow>
        r = Inr () \<and> running s' = True \<and> paginating s' = Some False
        \<and> drop 8 (trace w') = [WaitReaction 60, ClearReactions 100])"
  by (simp add: run_def run_loop.simps run_body_def wait_for_reaction_def show_page_def
      valid_page_def len_pages_def sample_session_def sample_world_def init_def controls_def
      send_def transport_def Let_def sample_ctx_def
      glyph_first_def glyph_last_def glyph_previous_def glyph_next_def glyph_close_def
      glyph_ask_def glyph_help_def)

subsection \<open>The cursor stays in range\<close>

lemma add_reactions_lists:
  "lists (snd (add_reactions s gs w)) = lists w"
  by (induction gs arbitrary: w) (auto simp: transport_def split: option.splits)

lemma show_page_cursor:
  assumes "show_page i (s, w) = (r, s', w')"
  shows "lists w' = lists w \<and> pages s' = pages s
         \<and> current s' = (if valid_page s w i then i else current s)"
proof -
  have a: "lists v' = lists v" if "add_reactions t gs v = (x, v')" for t gs v x v'
    using add_reactions_lists [of t gs v] that by simp
  show ?thesis
    using assms
    by (auto simp: show_page_def Let_def transport_def send_def
        split: option.splits prod.splits sum.splits if_splits dest!: a)
qed

lemma show_page_in_range:
  assumes "0 \<le> current s \<and> current s < len_pages s w"
    and "show_page i (s, w) = (r, s', w')"
  shows "0 \<le> current s' \<and> current s' < len_pages s' w'"
  using assms(1) show_page_cursor [OF assms(2)]
  by (auto simp: valid_page_def len_pages_def split: if_splits)

lemma close_in_range:
  assumes "0 \<le> current s \<and> current s < len_pages s w"
    and "close d (s, w) = (r, s', w')"
  shows "0 \<le> current s' \<and> current s' < len_pages s' w'"
  using assms
  by (auto simp: close_def Let_def transport_def len_pages_def
      split: option.splits prod.splits if_splits)

lemma show_help_page_in_range:
  assumes "0 \<le> current s \<and> current s < len_pages s w"
    and "show_help_page (s, w) = (r, s', w')"
  shows "0 \<le> current s' \<and> current s' < len_pages s' w'"
  using assms
  by (auto simp: show_help_page_def Let_def transport_def len_pages_def
      split: option.splits prod.splits if_splits)

lemma ask_for_page_in_range:
  assumes "0 \<le> current s \<and> current s < len_pages s w"
    and "ask_for_page u (s, w) = (r, s', w')"
  shows "0 \<le> current s' \<and> current s' < len_pages s' w'"
proof -
  have a: "0 \<le> current t' \<and> current t' < int (length (lists v' (pages t')))"
    if "show_page i (t, v) = (x, t', v')" and "0 \<le> current t" 
      and "current t < int (length (lists v (pages t)))" for i t v x t' v'
    using show_page_in_range [of t v i x t' v'] that by (simp add: len_pages_def)
  show ?thesis
    using assms
    apply (simp add: ask_for_page_def Let_def send_def wait_for_message_def len_pages_def
        cleanup_def sleep_def transport_def
        split: option.splits prod.splits sum.splits list.splits if_splits)
    apply (auto dest!: a)
    done
qed

lemma invoke_in_range:
  assumes "0 \<le> current s \<and> current s < len_pages s w"
    and "invoke u a (s, w) = (r, s', w')"
  shows "0 \<le> current s' \<and> current s' < len_pages s' w'"
proof (cases a)
  case FirstPage
  with assms(2) show ?thesis
    using show_page_in_range [OF assms(1), of 0 r s' w'] by (simp add: first_page_def)
next
  case PreviousPage
  with assms(2) show ?thesis
    using show_page_in_range [OF assms(1), of "current s - 1" r s' w']
    by (simp add: previous_page_def)
next
  case Close
  with assms(2) show ?thesis
    using close_in_range [OF assms(1), of True r s' w'] by simp
next
  case NextPage
  with assms(2) show ?thesis
    using show_page_in_range [OF assms(1), of "current s + 1" r s' w']
    by (simp add: next_page_def)
next
  case LastPage
  with assms(2) show ?thesis
    using show_page_in_range [OF assms(1), of "len_pages s w - 1" r s' w']
    by (simp add: last_page_def)
next
  case AskForPage
  with assms(2) show ?thesis
    using ask_for_page_in_range [OF assms(1), of u r s' w'] by simp
next
  case ShowHelpPage
  with assms(2) show ?thesis
    using show_help_page_in_range [OF assms(1), of r s' w'] by simp
qed

lemma invoke_all_in_range:
  "0 \<le> current s \<and> current s < len_pages s w \<Longrightarrow>
   0 \<le> current (fst (invoke_all u acts (s, w)))
   \<and> current (fst (invoke_all u acts (s, w)))
       < len_pages (fst (invoke_all u acts (s, w))) (snd (invoke_all u acts (s, w)))"
proof (induction acts arbitrary: s w)
  case Nil
  then show ?case by simp
next
  case (Cons a acts)
  obtain r s' w' where i: "invoke u a (s, w) = (r, s', w')"
    by (cases "invoke u a (s, w)") auto
  have "0 \<le> current s' \<and> current s' < len_pages s' w'"
    using invoke_in_range [OF Cons.prems i] .
  from Cons.IH [OF this] show ?case by (simp add: i)
qed

text \<open>
  Claim C2. From a session whose page list is not empty and whose cursor is in
  \<open>[0, len(pages))\<close>, as it is after construction, every sequence of control actions
  (the four navigation actions \<^verbatim>\<open>previous_page\<close>, \<^verbatim>\<open>next_page\<close>, \<^verbatim>\<open>first_page\<close>,
  \<^verbatim>\<open>last_page\<close>, and the three others as well) leaves the cursor in
  \<open>[0, len(pages))\<close>. \<^verbatim>\<open>previous_page\<close> at cursor 0 and \<^verbatim>\<open>next_page\<close> at cursor
  \<open>len(pages) - 1\<close> change neither the session nor the world: no call is issued.
\<close>

theorem navigation_cursor_in_range:
  assumes "lists w (pages s) \<noteq> []" and "0 \<le> current s" and "current s < len_pages s w"
  shows "0 \<le> current (fst (invoke_all u acts (s, w)))
         \<and> current (fst (invoke_all u acts (s, w)))
             < len_pages (fst (invoke_all u acts (s, w))) (snd (invoke_all u acts (s, w)))
         \<and> (current s = 0 \<longrightarrow> previous_page (s, w) = (Inr (), s, w))
         \<and> (current s = len_pages s w - 1 \<longrightarrow> next_page (s, w) = (Inr (), s, w))"
proof -
  have r: "0 \<le> current s \<and> current s < len_pages s w"
    using assms by simp
  have p: "previous_page (s, w) = (Inr (), s, w)" if "current s = 0"
    using that by (simp add: previous_page_def show_page_def valid_page_def)
  have n: "next_page (s, w) = (Inr (), s, w)" if "current s = len_pages s w - 1"
    using that by (simp add: next_page_def show_page_def valid_page_def)
  show ?thesis
    using invoke_all_in_range [OF r, of u acts] p n by simp
qed

theorem navigation_cursor_in_range_witness:
  "lists (sample_world [10, 11, 12]) (pages sample_session) \<noteq> []
   \<and> 0 \<le> current sample_session
   \<and> current sample_session < len_pages sample_session (sample_world [10, 11, 12])
   \<and> 0 \<le> current (fst (invoke_all ascii_ucd
         [NextPage, NextPage, NextPage, PreviousPage, LastPage, NextPage]
         (sample_session, sample_world [10, 11, 12])))
   \<and> current (fst (invoke_all ascii_ucd
         [NextPage, NextPage, NextPage, PreviousPage, LastPage, NextPage]
         (sample_session, sample_world [10, 11, 12]))) < 3
   \<and> previous_page (sample_session, sample_world [10, 11, 12])
       = (Inr (), sample_session, sample_world [10, 11, 12])
   \<and> next_page (sample_session\<lparr>current := 2\<rparr>, sample_world [10, 11, 12])
       = (Inr (), sample_session\<lparr>current := 2\<rparr>, sample_world [10, 11, 12])"
proof -
  have l: "len_pages sample_session (sample_world [10, 11, 12]) = 3"
    "len_pages (sample_session\<lparr>current := 2\<rparr>) (sample_world [10, 11, 12]) = 3"
    "lists (sample_world [10, 11, 12]) (pages sample_session) = [10, 11, 12]"
    "current sample_session = 0"
    by (simp_all add: len_pages_def sample_session_def sample_world_def init_def)
  have h1: "lists (sample_world [10, 11, 12]) (pages sample_session) \<noteq> []"
    and h2: "0 \<le> current sample_session"
    and h3: "current sample_session < len_pages sample_session (sample_world [10, 11, 12])"
    by (simp_all add: l)
  have g1: "lists (sample_world [10, 11, 12]) (pages (sample_session\<lparr>current := 2\<rparr>)) \<noteq> []"
    and g2: "0 \<le> current (sample_session\<lparr>current := 2\<rparr>)"
    and g3: "current (sample_session\<lparr>current := 2\<rparr>)
               < len_pages (sample_session\<lparr>current := 2\<rparr>) (sample_world [10, 11, 12])"
    using l by simp_all
  have e: "len_pages (fst (invoke_all ascii_ucd
         [NextPage, NextPage, NextPage, PreviousPage, LastPage, NextPage]
         (sample_session, sample_world [10, 11, 12]))) (snd (invoke_all ascii_ucd
         [NextPage, NextPage, NextPage, PreviousPage, LastPage, NextPage]
         (sample_session, sample_world [10, 11, 12]))) = 3"
    by (simp add: first_page_def previous_page_def next_page_def last_page_def
      show_page_def valid_page_def len_pages_def sample_session_def sample_world_def init_def
      controls_def send_def transport_def Let_def sample_ctx_def
      glyph_first_def glyph_last_def glyph_previous_def glyph_next_def glyph_close_def
      glyph_ask_def glyph_help_def)
  show ?thesis
    using navigation_cursor_in_range [OF h1 h2 h3, of ascii_ucd
        "[NextPage, NextPage, NextPage, PreviousPage, LastPage, NextPage]"]
      navigation_cursor_in_range [OF g1 g2 g3, of ascii_ucd "[]"]
    by (simp add: l e del: invoke_all.simps)
qed

subsection \<open>What a show_page that returns has done\<close>

text \<open>The definitions that evaluate the sample objects.\<close>

lemmas sample_defs =
  show_page_def valid_page_def len_pages_def sample_session_def sample_world_def init_def
  controls_def send_def transport_def Let_def sample_ctx_def sample_embed_def
  set_footer_def page_fmt_def
  glyph_first_def glyph_last_def glyph_previous_def glyph_next_def glyph_close_def
  glyph_ask_def glyph_help_def

lemma len_pages_frame [simp]:
  "len_pages s (w\<lparr>trace := t\<rparr>) = len_pages s w"
  "len_pages s (w\<lparr>embeds := em\<rparr>) = len_pages s w"
  "len_pages s (w\<lparr>next_id := n\<rparr>) = len_pages s w"
  "len_pages s (w\<lparr>messages_in := ms\<rparr>) = len_pages s w"
  "len_pages (s\<lparr>current := i\<rparr>) w = len_pages s w"
  "len_pages (s\<lparr>running := r\<rparr>) w = len_pages s w"
  "len_pages (s\<lparr>base := bo\<rparr>) w = len_pages s w"
  by (simp_all add: len_pages_def)

lemma add_reactions_ok:
  "add_reactions s gs w = (Inr (), w') \<Longrightarrow> base s = Some b \<Longrightarrow>
   w' = w\<lparr>trace := trace w @ map (AddReaction b)
          (filter (\<lambda>g. \<not> (len_pages s w = 2 \<and> str_in g (glyph_first @ glyph_last))) gs)\<rparr>"
proof (induction gs arbitrary: w)
  case Nil
  then show ?case by simp
next
  case (Cons g gs)
  show ?case
  proof (cases "len_pages s w = 2 \<and> str_in g (glyph_first @ glyph_last)")
    case True
    then have "add_reactions s gs w = (Inr (), w')"
      using Cons.prems(1) by simp
    from Cons.IH [OF this Cons.prems(2)] show ?thesis
      using True by simp
  next
    case False
    have ok: "\<not> failing w (length (trace w))"
      using Cons.prems False by (auto simp: transport_def split: if_splits)
    have "add_reactions s gs (w\<lparr>trace := trace w @ [AddReaction b g]\<rparr>) = (Inr (), w')"
      using Cons.prems False ok by (simp add: transport_def)
    from Cons.IH [OF this Cons.prems(2)] show ?thesis
      using False by simp
  qed
qed


lemma displayed_reactions [simp]: "displayed (map (AddReaction b) gs) = None"
  by (induction gs) auto



lemma show_page_first_render:
  assumes "\<not> running s" and "valid_page s w i" and "show_page i (s, w) = (Inr (), s', w')"
  shows "s' = s\<lparr>current := i, running := True, base := Some (next_id w)\<rparr>
         \<and> next_id w' = Suc (next_id w)
         \<and> trace w' = trace w @
             Send (channel (ctx s)) (EmbedPayload (embeds w' (lists w (pages s) ! nat i)))
             # map (AddReaction (next_id w))
                 (filter (\<lambda>g. \<not> (len_pages s w = 2 \<and> str_in g (glyph_first @ glyph_last)))
                    (map fst (reaction_map s)))"
proof -
  have a: "v' = v\<lparr>trace := trace v @ map (AddReaction b)
          (filter (\<lambda>g. \<not> (len_pages t v = 2 \<and> str_in g (glyph_first @ glyph_last))) gs)\<rparr>"
    if "add_reactions t gs v = (Inr (), v')" "base t = Some b" for t gs v v' b
    using add_reactions_ok [OF that] .
  show ?thesis
    using assms
    by (auto simp: show_page_def Let_def send_def
        split: option.splits if_splits prod.splits sum.splits dest!: a)
qed

text \<open>
  Claim C8. \<^verbatim>\<open>show_page\<close> on a valid index, in a session that is not running and has
  the controls of the constructor, when it returns: \<^verbatim>\<open>running\<close> is true, the message
  sent is the displayed message, and the calls issued are one send of the page followed
  by one reaction for each glyph in the order of the controls; with exactly two pages
  the glyphs of \<^verbatim>\<open>first_page\<close> and \<^verbatim>\<open>last_page\<close> are left out, with any other number
  of pages all seven are attached.
\<close>

theorem first_render_reactions:
  assumes "\<not> running s" and "valid_page s w i" and "reaction_map s = controls"
    and "show_page i (s, w) = (Inr (), s', w')"
  shows "running s' \<and> base s' = Some (next_id w) \<and> next_id w' = Suc (next_id w)
         \<and> trace w' = trace w @
             Send (channel (ctx s)) (EmbedPayload (embeds w' (lists w (pages s) ! nat i)))
             # map (AddReaction (next_id w))
                 (if len_pages s w = 2
                  then [glyph_previous, glyph_close, glyph_next, glyph_ask, glyph_help]
                  else [glyph_first, glyph_previous, glyph_close, glyph_next, glyph_last,
                        glyph_ask, glyph_help])"
  using show_page_first_render [OF assms(1,2,4)] assms(3)
  by (simp add: controls_def glyph_first_def glyph_last_def glyph_previous_def
      glyph_next_def glyph_close_def glyph_ask_def glyph_help_def)

theorem first_render_reactions_witness:
  "\<not> running sample_session
   \<and> valid_page sample_session (sample_world [10, 11]) 0
   \<and> valid_page sample_session (sample_world [10, 11, 12]) 0
   \<and> reaction_map sample_session = controls
   \<and> fst (show_page 0 (sample_session, sample_world [10, 11])) = Inr ()
   \<and> fst (show_page 0 (sample_session, sample_world [10, 11, 12])) = Inr ()
   \<and> running (fst (snd (show_page 0 (sample_session, sample_world [10, 11]))))
   \<and> tl (trace (snd (snd (show_page 0 (sample_session, sample_world [10, 11])))))
       = map (AddReaction 100) [[0x25C0], [0x23F9], [0x25B6], [0x1F522], [0x1F914]]
   \<and> tl (trace (snd (snd (show_page 0 (sample_session, sample_world [10, 11, 12])))))
       = map (AddReaction 100)
           [[0x23EE], [0x25C0], [0x23F9], [0x25B6], [0x23ED], [0x1F522], [0x1F914]]"
proof -
  have h1: "\<not> running sample_session"
    and h3: "reaction_map sample_session = controls"
    by (simp_all add: sample_session_def init_def)
  have h2: "valid_page sample_session (sample_world [10, 11]) 0"
    and g2: "valid_page sample_session (sample_world [10, 11, 12]) 0"
    by (simp_all add: sample_defs)
  have r2: "fst (show_page 0 (sample_session, sample_world [10, 11])) = Inr ()"
    and r3: "fst (show_page 0 (sample_session, sample_world [10, 11, 12])) = Inr ()"
    by (simp_all add: sample_defs)
  have l: "len_pages sample_session (sample_world [10, 11]) = 2"
    "len_pages sample_session (sample_world [10, 11, 12]) = 3"
    "trace (sample_world [10, 11]) = []" "trace (sample_world [10, 11, 12]) = []"
    "next_id (sample_world [10, 11]) = 100" "next_id (sample_world [10, 11, 12]) = 100"
    by (simp_all add: sample_defs)
  have h4: "show_page 0 (sample_session, sample_world [10, 11])
      = (Inr (), fst (snd (show_page 0 (sample_session, sample_world [10, 11]))),
         snd (snd (show_page 0 (sample_session, sample_world [10, 11]))))"
    using r2 by (simp add: prod_eq_iff)
  have g4: "show_page 0 (sample_session, sample_world [10, 11, 12])
      = (Inr (), fst (snd (show_page 0 (sample_session, sample_world [10, 11, 12]))),
         snd (snd (show_page 0 (sample_session, sample_world [10, 11, 12]))))"
    using r3 by (simp add: prod_eq_iff)
  show ?thesis
    using first_render_reactions [OF h1 h2 h3 h4] first_render_reactions [OF h1 g2 h3 g4]
      h1 h2 g2 h3 r2 r3
    by (simp add: l glyph_first_def glyph_last_def glyph_previous_def glyph_next_def
        glyph_close_def glyph_ask_def glyph_help_def)
qed



subsection \<open>The page-jump dialog\<close>

lemmas dialog_defs =
  ask_for_page_def wait_for_message_def message_check_def isdigit_def py_int_def
  ascii_ucd_def cleanup_def sleep_def invalid_page_text_def no_reply_def
  sample_running_def sample_reply_def sample_inbox_def str_int_def ascii_def

lemma first_accepted_none:
  "list_all (\<lambda>m. check m = Inr False) window \<Longrightarrow> first_accepted check window = Inr None"
  by (induction window) auto

text \<open>
  Claim C5. In the jump dialog, once the prompt is sent, when no message that passes
  \<^verbatim>\<open>message_check\<close> arrives within the timeout of 30 and the notice is sent: the dialog
  returns normally whether the deletion fails or not, the session (hence the cursor) is
  unchanged and no page is rendered, and the calls issued are, in this order, the
  prompt, the wait of 30, the notice \<^verbatim>\<open>Took too long.\<close>, the delay of 5 and one batch
  deletion of the two recorded messages, the prompt and the notice.
\<close>

theorem ask_for_page_timeout:
  assumes "\<not> failing w (length (trace w))"
    and "no_reply u s w"
    and "\<not> failing w (length (trace w) + 2)"
  shows "fst (ask_for_page u (s, w)) = Inr ()
         \<and> fst (snd (ask_for_page u (s, w))) = s
         \<and> trace (snd (snd (ask_for_page u (s, w))))
             = trace w @
               [Send (channel (ctx s)) (Text (ascii ''What page do you want to go to?'')),
                WaitMessage 30,
                Send (channel (ctx s)) (Text (ascii ''Took too long.'')),
                Sleep 5,
                DeleteMessages (channel (ctx s)) [next_id w, Suc (next_id w)]]
         \<and> embeds (snd (snd (ask_for_page u (s, w)))) = embeds w"
proof (cases "messages_in w")
  case Nil
  then show ?thesis
    using assms(1,3)
    by (simp add: ask_for_page_def send_def wait_for_message_def cleanup_def sleep_def
        transport_def Let_def)
next
  case (Cons window later)
  have "first_accepted (message_check u s) window = Inr None"
    using assms(2) Cons by (simp add: no_reply_def first_accepted_none)
  then show ?thesis
    using assms(1,3) Cons
    by (simp add: ask_for_page_def send_def wait_for_message_def cleanup_def sleep_def
        transport_def Let_def)
qed

theorem ask_for_page_timeout_witness:
  "\<not> failing ((sample_inbox [sample_reply 8 (ascii ''2''), sample_reply 7 (ascii ''two'')])
        \<lparr>failing := (\<lambda>n. n = 4)\<rparr>) 0
   \<and> no_reply ascii_ucd sample_running
        ((sample_inbox [sample_reply 8 (ascii ''2''), sample_reply 7 (ascii ''two'')])
           \<lparr>failing := (\<lambda>n. n = 4)\<rparr>)
   \<and> \<not> failing ((sample_inbox [sample_reply 8 (ascii ''2''), sample_reply 7 (ascii ''two'')])
        \<lparr>failing := (\<lambda>n. n = 4)\<rparr>) 2
   \<and> failing ((sample_inbox [sample_reply 8 (ascii ''2''), sample_reply 7 (ascii ''two'')])
        \<lparr>failing := (\<lambda>n. n = 4)\<rparr>) 4
   \<and> fst (ask_for_page ascii_ucd (sample_running,
        (sample_inbox [sample_reply 8 (ascii ''2''), sample_reply 7 (ascii ''two'')])
           \<lparr>failing := (\<lambda>n. n = 4)\<rparr>)) = Inr ()
   \<and> current (fst (snd (ask_for_page ascii_ucd (sample_running,
        (sample_inbox [sample_reply 8 (ascii ''2''), sample_reply 7 (ascii ''two'')])
           \<lparr>failing := (\<lambda>n. n = 4)\<rparr>)))) = 0
   \<and> trace (snd (snd (ask_for_page ascii_ucd (sample_running,
        (sample_inbox [sample_reply 8 (ascii ''2''), sample_reply 7 (ascii ''two'')])
           \<lparr>failing := (\<lambda>n. n = 4)\<rparr>))))
       = [Send 3 (Text (ascii ''What page do you want to go to?'')),
          WaitMessage 30,
          Send 3 (Text (ascii ''Took too long.'')),
          Sleep 5,
          DeleteMessages 3 [100, 101]]"
proof -
  let ?w = "(sample_inbox [sample_reply 8 (ascii ''2''), sample_reply 7 (ascii ''two'')])
              \<lparr>failing := (\<lambda>n. n = 4)\<rparr>"
  have t: "trace ?w = []" "next_id ?w = 100" "channel (ctx sample_running) = 3"
    "current sample_running = 0"
    by (simp_all add: sample_defs dialog_defs)
  have h1: "\<not> failing ?w (length (trace ?w))"
    and h3: "\<not> failing ?w (length (trace ?w) + 2)"
    and f4: "failing ?w 4"
    by (simp_all add: sample_defs dialog_defs)
  have h2: "no_reply ascii_ucd sample_running ?w"
    by (simp add: sample_defs dialog_defs)
  show ?thesis
    using ask_for_page_timeout [OF h1 h2 h3] h1 h2 h3 f4
    by (simp add: t)
qed

text \<open>
  Claim C4. In the jump dialog, once the prompt is sent, when the wait returns a message
  whose text \<^verbatim>\<open>int\<close> parses as \<open>k\<close>: if \<open>1 \<le> k \<le> len(pages)\<close> the dialog goes on as
  \<^verbatim>\<open>show_page(k-1)\<close> followed by the cleanup, and the cursor becomes \<open>k - 1\<close>; if
  \<open>k = 0\<close> or \<open>k > len(pages)\<close> the session and the heap are unchanged, and the call
  after the wait is the send of the notice \<^verbatim>\<open>Invalid page given. ({k}/{len(pages)})\<close>,
  followed, when that send succeeds, by the delay and the batch deletion of prompt,
  reply and notice.
\<close>

theorem ask_for_page_reply:
  assumes "\<not> failing w (length (trace w))"
    and "messages_in w = window # later"
    and "first_accepted (message_check u s) window = Inr (Some msg)"
    and "py_int u (content msg) = Inr k"
  shows "(1 \<le> k \<and> int k \<le> len_pages s w \<longrightarrow>
           ask_for_page u (s, w)
             = (case show_page (int k - 1)
                      (s, w\<lparr>next_id := Suc (next_id w),
                            trace := trace w @
                              [Send (channel (ctx s))
                                 (Text (ascii ''What page do you want to go to?'')),
                               WaitMessage 30],
                            messages_in := later\<rparr>) of
                  (Inl e, st') \<Rightarrow> (Inl e, st')
                | (Inr x, s', w3) \<Rightarrow> (Inr (), s', cleanup s' [next_id w, m_id msg] w3))
           \<and> current (fst (snd (ask_for_page u (s, w)))) = int k - 1)
         \<and> (k = 0 \<or> len_pages s w < int k \<longrightarrow>
           fst (ask_for_page u (s, w))
             = (if failing w (length (trace w) + 2) then Inl HTTPException else Inr ())
           \<and> fst (snd (ask_for_page u (s, w))) = s
           \<and> embeds (snd (snd (ask_for_page u (s, w)))) = embeds w
           \<and> trace (snd (snd (ask_for_page u (s, w))))
               = trace w @
                 [Send (channel (ctx s)) (Text (ascii ''What page do you want to go to?'')),
                  WaitMessage 30,
                  Send (channel (ctx s))
                    (Text (ascii ''Invalid page given. ('' @ str_int (int k) @ ascii ''/''
                           @ str_int (len_pages s w) @ ascii '')''))]
                 @ (if failing w (length (trace w) + 2) then []
                    else [Sleep 5,
                          DeleteMessages (channel (ctx s))
                            [next_id w, m_id msg, Suc (next_id w)]]))"
proof (intro conjI impI)
  assume k: "1 \<le> k \<and> int k \<le> len_pages s w"
  let ?w2 = "w\<lparr>next_id := Suc (next_id w),
                trace := trace w @
                  [Send (channel (ctx s)) (Text (ascii ''What page do you want to go to?'')),
                   WaitMessage 30],
                messages_in := later\<rparr>"
  show eq: "ask_for_page u (s, w)
             = (case show_page (int k - 1) (s, ?w2) of
                  (Inl e, st') \<Rightarrow> (Inl e, st')
                | (Inr x, s', w3) \<Rightarrow> (Inr (), s', cleanup s' [next_id w, m_id msg] w3))"
    using assms k
    by (simp add: ask_for_page_def send_def wait_for_message_def Let_def len_pages_def)
  obtain r s' w' where sp: "show_page (int k - 1) (s, ?w2) = (r, s', w')"
    by (cases "show_page (int k - 1) (s, ?w2)") auto
  have v: "valid_page s ?w2 (int k - 1)"
    using k by (simp add: valid_page_def len_pages_def)
  have "current s' = int k - 1"
    using show_page_cursor [OF sp] v by simp
  then show "current (fst (snd (ask_for_page u (s, w)))) = int k - 1"
    by (cases r) (simp_all add: eq sp)
next
  assume k: "k = 0 \<or> len_pages s w < int k"
  show "fst (ask_for_page u (s, w))
             = (if failing w (length (trace w) + 2) then Inl HTTPException else Inr ())"
    using assms k
    by (auto simp: ask_for_page_def send_def wait_for_message_def Let_def len_pages_def
        cleanup_def sleep_def transport_def)
  show "fst (snd (ask_for_page u (s, w))) = s"
    using assms k
    by (auto simp: ask_for_page_def send_def wait_for_message_def Let_def len_pages_def
        cleanup_def sleep_def transport_def)
  show "embeds (snd (snd (ask_for_page u (s, w)))) = embeds w"
    using assms k
    by (auto simp: ask_for_page_def send_def wait_for_message_def Let_def len_pages_def
        cleanup_def sleep_def transport_def)
  show "trace (snd (snd (ask_for_page u (s, w))))
               = trace w @
                 [Send (channel (ctx s)) (Text (ascii ''What page do you want to go to?'')),
                  WaitMessage 30,
                  Send (channel (ctx s))
                    (Text (ascii ''Invalid page given. ('' @ str_int (int k) @ ascii ''/''
                           @ str_int (len_pages s w) @ ascii '')''))]
                 @ (if failing w (length (trace w) + 2) then []
                    else [Sleep 5,
                          DeleteMessages (channel (ctx s))
                            [next_id w, m_id msg, Suc (next_id w)]])"
    using assms k
    by (auto simp: ask_for_page_def send_def wait_for_message_def Let_def len_pages_def
        cleanup_def sleep_def transport_def invalid_page_text_def)
qed

theorem ask_for_page_reply_witness:
  "first_accepted (message_check ascii_ucd sample_running)
       [sample_reply 8 (ascii ''1''), sample_reply 7 (ascii ''2'')]
     = Inr (Some (sample_reply 7 (ascii ''2'')))
   \<and> py_int ascii_ucd (content (sample_reply 7 (ascii ''2''))) = Inr 2
   \<and> current (fst (snd (ask_for_page ascii_ucd (sample_running,
        sample_inbox [sample_reply 8 (ascii ''1''), sample_reply 7 (ascii ''2'')])))) = 1
   \<and> py_int ascii_ucd (content (sample_reply 7 (ascii ''0''))) = Inr 0
   \<and> fst (ask_for_page ascii_ucd (sample_running, sample_inbox [sample_reply 7 (ascii ''0'')]))
       = Inr ()
   \<and> current (fst (snd (ask_for_page ascii_ucd
        (sample_running, sample_inbox [sample_reply 7 (ascii ''0'')])))) = 0
   \<and> trace (snd (snd (ask_for_page ascii_ucd
        (sample_running, sample_inbox [sample_reply 7 (ascii ''0'')]))))
       = [Send 3 (Text (ascii ''What page do you want to go to?'')),
          WaitMessage 30,
          Send 3 (Text (ascii ''Invalid page given. (0/3)'')),
          Sleep 5,
          DeleteMessages 3 [100, 907, 101]]
   \<and> py_int ascii_ucd (content (sample_reply 7 (ascii ''7''))) = Inr 7
   \<and> trace (snd (snd (ask_for_page ascii_ucd
        (sample_running, sample_inbox [sample_reply 7 (ascii ''7'')]))))
       = [Send 3 (Text (ascii ''What page do you want to go to?'')),
          WaitMessage 30,
          Send 3 (Text (ascii ''Invalid page given. (7/3)'')),
          Sleep 5,
          DeleteMessages 3 [100, 907, 101]]"
proof -
  let ?a = "sample_inbox [sample_reply 8 (ascii ''1''), sample_reply 7 (ascii ''2'')]"
  let ?b = "sample_inbox [sample_reply 7 (ascii ''0'')]"
  let ?c = "sample_inbox [sample_reply 7 (ascii ''7'')]"
  have t: "trace (sample_inbox ms) = []" "next_id (sample_inbox ms) = 100"
    "channel (ctx sample_running) = 3" "current sample_running = 0"
    "len_pages sample_running (sample_inbox ms) = 3"
    "m_id (sample_reply 7 x) = 907" for ms x
    by (simp_all add: sample_defs dialog_defs)
  have n: "str_int 0 = ascii ''0''" "str_int 3 = ascii ''3''" "str_int 7 = ascii ''7''"
    by (simp_all add: str_int_def str_nat.simps ascii_def)
  have f: "\<not> failing (sample_inbox ms) n" for ms n
    by (simp add: sample_defs dialog_defs)
  have a1: "\<not> failing ?a (length (trace ?a))"
    and b1: "\<not> failing ?b (length (trace ?b))"
    and c1: "\<not> failing ?c (length (trace ?c))"
    by (simp_all only: f simp_thms)
  have a2: "messages_in ?a = [sample_reply 8 (ascii ''1''), sample_reply 7 (ascii ''2'')] # []"
    and b2: "messages_in ?b = [sample_reply 7 (ascii ''0'')] # []"
    and c2: "messages_in ?c = [sample_reply 7 (ascii ''7'')] # []"
    by (simp_all add: sample_inbox_def)
  have a3: "first_accepted (message_check ascii_ucd sample_running)
       [sample_reply 8 (ascii ''1''), sample_reply 7 (ascii ''2'')]
     = Inr (Some (sample_reply 7 (ascii ''2'')))"
    and b3: "first_accepted (message_check ascii_ucd sample_running)
       [sample_reply 7 (ascii ''0'')] = Inr (Some (sample_reply 7 (ascii ''0'')))"
    and c3: "first_accepted (message_check ascii_ucd sample_running)
       [sample_reply 7 (ascii ''7'')] = Inr (Some (sample_reply 7 (ascii ''7'')))"
    by (simp_all add: sample_defs dialog_defs)
  have a4: "py_int ascii_ucd (content (sample_reply 7 (ascii ''2''))) = Inr 2"
    and b4: "py_int ascii_ucd (content (sample_reply 7 (ascii ''0''))) = Inr 0"
    and c4: "py_int ascii_ucd (content (sample_reply 7 (ascii ''7''))) = Inr 7"
    by (simp_all add: dialog_defs)
  have a: "current (fst (snd (ask_for_page ascii_ucd (sample_running, ?a)))) = 1"
    using ask_for_page_reply [OF a1 a2 a3 a4, THEN conjunct1, rule_format, THEN conjunct2]
    by (simp add: t)
  have b: "fst (ask_for_page ascii_ucd (sample_running, ?b)) = Inr ()"
    "current (fst (snd (ask_for_page ascii_ucd (sample_running, ?b)))) = 0"
    "trace (snd (snd (ask_for_page ascii_ucd (sample_running, ?b))))
       = [Send 3 (Text (ascii ''What page do you want to go to?'')),
          WaitMessage 30,
          Send 3 (Text (ascii ''Invalid page given. (0/3)'')),
          Sleep 5,
          DeleteMessages 3 [100, 907, 101]]"
    using ask_for_page_reply [OF b1 b2 b3 b4] by (simp_all add: t f n ascii_def)
  have c: "trace (snd (snd (ask_for_page ascii_ucd (sample_running, ?c))))
       = [Send 3 (Text (ascii ''What page do you want to go to?'')),
          WaitMessage 30,
          Send 3 (Text (ascii ''Invalid page given. (7/3)'')),
          Sleep 5,
          DeleteMessages 3 [100, 907, 101]]"
    using ask_for_page_reply [OF c1 c2 c3 c4] by (simp add: t f n ascii_def)
  show ?thesis
    using a3 a4 a b4 b c4 c by (simp only: simp_thms)
qed

text \<open>
  A text can pass \<^verbatim>\<open>isdigit\<close> and still not be a decimal numeral. Then \<^verbatim>\<open>int\<close>
  raises inside the dialog, after the prompt and the wait, and nothing is cleaned up.
\<close>

lemma ask_for_page_not_decimal:
  assumes "\<not> failing w (length (trace w))"
    and "messages_in w = window # later"
    and "first_accepted (message_check u s) window = Inr (Some msg)"
    and "py_int u (content msg) = Inl e"
  shows "fst (ask_for_page u (s, w)) = Inl e
         \<and> trace (snd (snd (ask_for_page u (s, w))))
             = trace w @
               [Send (channel (ctx s)) (Text (ascii ''What page do you want to go to?'')),
                WaitMessage 30]"
  using assms
  by (simp add: ask_for_page_def send_def wait_for_message_def Let_def)

end
